theory Spec2Isabelle
  imports Main
begin

section \<open>The Go string functions used by package tls\<close>

text \<open>
  Go strings are byte sequences; \<open>string\<close> (a list of \<open>char\<close>, one per byte) is the
  same data, and \<open>length\<close> is Go's \<open>len\<close>.

  \<open>strings.Split(s, sep)\<close> cuts \<open>s\<close> at every occurrence of \<open>sep\<close> and returns the
  pieces between the occurrences, in order. The only separator the source passes is the
  one-byte string \<open>","\<close>, so the separator is a single \<open>char\<close> here.
\<close>

fun strings_Split :: "string \<Rightarrow> char \<Rightarrow> string list" where
  "strings_Split [] sep = [[]]"
| "strings_Split (x # xs) sep =
     (if x = sep then [] # strings_Split xs sep
      else (case strings_Split xs sep of
              [] \<Rightarrow> [[x]]
            | p # ps \<Rightarrow> (x # p) # ps))"

text \<open>\<open>strings.Join(elems, sep)\<close>: the elements with \<open>sep\<close> between neighbours.\<close>

fun strings_Join :: "string list \<Rightarrow> string \<Rightarrow> string" where
  "strings_Join [] sep = []"
| "strings_Join [x] sep = x"
| "strings_Join (x # y # ys) sep = x @ sep @ strings_Join (y # ys) sep"

text \<open>\<open>strings.HasPrefix(s, prefix)\<close> and \<open>strings.TrimPrefix(s, prefix)\<close>.\<close>

definition strings_HasPrefix :: "string \<Rightarrow> string \<Rightarrow> bool" where
  "strings_HasPrefix s pre = (length pre \<le> length s \<and> take (length pre) s = pre)"

definition strings_TrimPrefix :: "string \<Rightarrow> string \<Rightarrow> string" where
  "strings_TrimPrefix s pre = (if strings_HasPrefix s pre then drop (length pre) s else s)"

section \<open>FileOrContent and FilesOrContents\<close>

text \<open>
  \<open>const certificateHeader = "-----BEGIN CERTIFICATE-----\n"\<close>: 27 bytes and a line feed.
\<close>

definition certificateHeader :: string where
  "certificateHeader = ''-----BEGIN CERTIFICATE-----'' @ [CHR 0x0A]"

text \<open>
  The declaration of \<open>FileOrContent\<close> is not in \<open>tls.go\<close>. The source converts a string
  to it with \<open>FileOrContent(fileOrContent)\<close> and reads it back with \<open>String()\<close>, so it is
  a named string type: one constructor around the stored string.
\<close>

datatype FileOrContent = FileOrContent string

text \<open>
  Modelled from the spec: \<open>FileOrContent.String()\<close> is declared outside \<open>tls.go\<close>; it
  ``returns the raw stored value (path string or inline PEM text) unchanged''.
\<close>

fun FileOrContent_String :: "FileOrContent \<Rightarrow> string" where
  "FileOrContent_String (FileOrContent s) = s"

text \<open>\<open>type FilesOrContents []FileOrContent\<close>\<close>

type_synonym FilesOrContents = "FileOrContent list"

text \<open>
  An \<open>error\<close> of Go is represented by its message. \<open>fmt.Errorf(format, value)\<close> with
  the format \<open>"bad FilesOrContents format: %s"\<close> is that text followed by \<open>value\<close>.
\<close>

datatype error = Errorf string

text \<open>
  \<open>func (r *FilesOrContents) String() string\<close>. The loop
  \<open>for key, value := range *r { sliceOfString[key] = value.String() }\<close> writes into a
  slice made with \<open>len(*r)\<close> empty strings; \<open>fillStrings\<close> is that loop from index
  \<open>key\<close> on.
\<close>

fun fillStrings :: "nat \<Rightarrow> FileOrContent list \<Rightarrow> string list \<Rightarrow> string list" where
  "fillStrings key [] sliceOfString = sliceOfString"
| "fillStrings key (v # vs) sliceOfString =
     fillStrings (Suc key) vs (sliceOfString[key := FileOrContent_String v])"

definition FilesOrContents_String :: "FilesOrContents \<Rightarrow> string" where
  "FilesOrContents_String r =
     strings_Join (fillStrings 0 r (replicate (length r) [])) '',''"

text \<open>
  \<open>func (r *FilesOrContents) Set(value string) error\<close>. The receiver is updated in
  place; the model returns the error (\<open>None\<close> for \<open>nil\<close>) and the new value of \<open>*r\<close>.
  The loop \<open>for _, fileOrContent := range filesOrContents { *r = append(*r, ...) }\<close>
  is \<open>appendAll\<close>.
\<close>

fun appendAll :: "FilesOrContents \<Rightarrow> string list \<Rightarrow> FilesOrContents" where
  "appendAll r [] = r"
| "appendAll r (fileOrContent # rest) = appendAll (r @ [FileOrContent fileOrContent]) rest"

definition FilesOrContents_Set :: "FilesOrContents \<Rightarrow> string \<Rightarrow> error option \<times> FilesOrContents" where
  "FilesOrContents_Set r v =
     (let filesOrContents = strings_Split v (CHR '','') in
      if length filesOrContents = 0
      then (Some (Errorf (''bad FilesOrContents format: '' @ v)), r)
      else (None, appendAll r filesOrContents))"

text \<open>
  Modelled from the spec: \<open>FileOrContent.IsPath()\<close> is declared outside \<open>tls.go\<close>; it is
  ``true when the value does not begin with the PEM certificate header marker''.
\<close>

definition FileOrContent_IsPath :: "FileOrContent \<Rightarrow> bool" where
  "FileOrContent_IsPath f = (\<not> strings_HasPrefix (FileOrContent_String f) certificateHeader)"

section \<open>Slices, Configurations and the per-entry-point store\<close>

text \<open>
  \<open>Certificate\<close> is declared outside \<open>tls.go\<close>; the source reads its field \<open>CertFile\<close>,
  and the spec gives its shape as a certificate file and a key file, each a FileOrContent.
\<close>

record Certificate =
  CertFile :: FileOrContent
  KeyFile :: FileOrContent

text \<open>
  A Go slice of strings is a window on a backing array: the array (\<open>base\<close>, its address
  in the memory of arrays), the index of the window's first element (\<open>off\<close>), its length
  and its capacity. Two slices may share a backing array. The \<open>nil\<close> slice is \<open>None\<close>.
\<close>

record slice =
  base :: nat
  off :: nat
  slen :: nat
  scap :: nat

text \<open>
  \<open>type Configuration struct { EntryPoints []string; Certificate *Certificate }\<close>.
  The pointers in \<open>configurations\<close> and the certificate pointers are taken to be
  non-nil, and the certificate pointed to is never written by the functions below, so
  the record holds the certificate itself.
\<close>

record Configuration =
  EntryPoints :: "slice option"
  Certificate :: Certificate

text \<open>
  \<open>len(s)\<close>, \<open>cap(s)\<close> and the elements \<open>range s\<close> visits, read from the memory of
  arrays \<open>arrs\<close> (a list of arrays, an address being an index).
\<close>

definition len :: "slice option \<Rightarrow> nat" where
  "len s = (case s of None \<Rightarrow> 0 | Some h \<Rightarrow> slen h)"

definition cap :: "slice option \<Rightarrow> nat" where
  "cap s = (case s of None \<Rightarrow> 0 | Some h \<Rightarrow> scap h)"

definition elems :: "string list list \<Rightarrow> slice option \<Rightarrow> string list" where
  "elems arrs s =
     (case s of None \<Rightarrow> [] | Some h \<Rightarrow> take (slen h) (drop (off h) (arrs ! base h)))"

text \<open>
  \<open>append(s, xs...)\<close>. When the capacity of \<open>s\<close> has room for the new elements they are
  written into the backing array of \<open>s\<close>, behind its last element, and the result is
  \<open>s\<close> with a greater length; every slice that shares the array sees the write.
  Otherwise a new array is allocated, with the elements of \<open>s\<close> and then \<open>xs\<close>; its
  capacity is chosen by the runtime (\<open>grow\<close>, from the length needed) and is at least
  that length, the spare elements being empty strings. Appending nothing to a nil slice
  gives nil. \<open>xs\<close> is read before anything is written.
\<close>

definition append_slice ::
  "(nat \<Rightarrow> nat) \<Rightarrow> string list list \<Rightarrow> slice option \<Rightarrow> string list
     \<Rightarrow> slice option \<times> string list list" where
  "append_slice grow arrs s xs =
     (if len s + length xs \<le> cap s
      then (case s of
              None \<Rightarrow> (None, arrs)
            | Some h \<Rightarrow>
                (Some (h\<lparr>slen := slen h + length xs\<rparr>),
                 arrs[base h := take (off h + slen h) (arrs ! base h) @ xs
                                @ drop (off h + slen h + length xs) (arrs ! base h)]))
      else (let n = len s + length xs; c = max n (grow n)
            in (Some \<lparr>base = length arrs, off = 0, slen = n, scap = c\<rparr>,
                arrs @ [elems arrs s @ xs @ replicate (c - n) []])))"

text \<open>
  \<open>map[string]map[string]*tls.Certificate\<close>: entry-point name to server name to parsed
  certificate. The parsed certificate \<open>'tc\<close> is left abstract. Each entry point owns its
  inner map (no inner map is shared between two entry points).
\<close>

type_synonym 'tc store = "string \<rightharpoonup> (string \<rightharpoonup> 'tc)"

definition lookup :: "'tc store \<Rightarrow> string \<Rightarrow> string \<Rightarrow> 'tc option" where
  "lookup st ep name = (case st ep of None \<Rightarrow> None | Some m \<Rightarrow> m name)"

text \<open>
  Modelled from the spec: \<open>Certificate.AppendCertificates(store, entryPointName)\<close> is
  declared outside \<open>tls.go\<close>. It ``resolves the certificate and key FileOrContent values
  to bytes, parses them into a runtime TLS certificate object; fails with a parse error
  if the PEM is malformed or if the certificate/key pair is mismatched. On success,
  determines the set of server names the certificate is valid for; for each such name,
  inserts (or overwrites) an entry in \<open>store[entryPointName][name]\<close>; if
  \<open>store[entryPointName]\<close> does not yet exist, it is created first.''
  Reading the files and parsing X.509 is the parameter \<open>parse\<close>: it gives the error, or
  the server names and the parsed certificate.
\<close>

fun insertNames :: "string list \<Rightarrow> 'tc \<Rightarrow> (string \<rightharpoonup> 'tc) \<Rightarrow> (string \<rightharpoonup> 'tc)" where
  "insertNames [] tc m = m"
| "insertNames (n # ns) tc m = insertNames ns tc (m(n \<mapsto> tc))"

definition Certificate_AppendCertificates ::
  "(Certificate \<Rightarrow> 'e + string list \<times> 'tc) \<Rightarrow> Certificate \<Rightarrow> 'tc store \<Rightarrow> string
     \<Rightarrow> 'e option \<times> 'tc store" where
  "Certificate_AppendCertificates parse c certs ep =
     (case parse c of
        Inl e \<Rightarrow> (Some e, certs)
      | Inr (names, tc) \<Rightarrow>
          (None, certs(ep \<mapsto> insertNames names tc
                                (case certs ep of None \<Rightarrow> Map.empty | Some m \<Rightarrow> m))))"

section \<open>SortTLSPerEntryPoints\<close>

text \<open>
  What \<open>SortTLSPerEntryPoints\<close> uses from outside \<open>tls.go\<close> is passed in:
  \<open>isPath\<close> for \<open>FileOrContent.IsPath\<close>, \<open>appendCertificates\<close> for
  \<open>Certificate.AppendCertificates\<close> (it updates the map it is given in place, so it
  returns the error and the map afterwards), \<open>debugLevel\<close> for the test
  \<open>log.GetLevel() >= logrus.DebugLevel\<close>, and \<open>newCapacity\<close> for the capacity the
  runtime gives an array that \<open>append\<close> allocates.
\<close>

record ('tc, 'e) deps =
  isPath :: "FileOrContent \<Rightarrow> bool"
  appendCertificates :: "Certificate \<Rightarrow> 'tc store \<Rightarrow> string \<Rightarrow> 'e option \<times> 'tc store"
  debugLevel :: bool
  newCapacity :: "nat \<Rightarrow> nat"

text \<open>
  The state the loop works on. \<open>configurations\<close> is a slice of pointers, so two of its
  elements may be the same Configuration: \<open>heap\<close> gives the Configuration behind each
  pointer (a \<open>nat\<close>), and the argument is the list of pointers. \<open>arrays\<close> is the memory
  of backing arrays, \<open>store\<close> the map the local variable \<open>epConfiguration\<close> refers to,
  \<open>logged\<close> the lines given to \<open>log.Debugf\<close> so far.
\<close>

record 'tc state =
  heap :: "nat \<Rightarrow> Configuration"
  arrays :: "string list list"
  store :: "'tc store"
  logged :: "string list"

text \<open>Lines 89 to 93: the certificate name put in the diagnostic.\<close>

definition certName :: "(FileOrContent \<Rightarrow> bool) \<Rightarrow> Certificate \<Rightarrow> string" where
  "certName is_path c =
     (if \<not> is_path (CertFile c)
         \<and> strings_HasPrefix (FileOrContent_String (CertFile c)) certificateHeader
         \<and> length (FileOrContent_String (CertFile c)) > length certificateHeader + 50
      then take 50 (strings_TrimPrefix (FileOrContent_String (CertFile c)) certificateHeader)
      else FileOrContent_String (CertFile c))"

text \<open>Line 94: the text \<open>log.Debugf\<close> formats, both verbs being \<open>%s\<close>.\<close>

definition debugMessage :: "string \<Rightarrow> string list \<Rightarrow> string" where
  "debugMessage name defaultEntryPoints =
     ''No entryPoint is defined to add the certificate '' @ name
     @ '', it will be added to the default entryPoints: ''
     @ strings_Join defaultEntryPoints '', ''"

text \<open>The test of line 87.\<close>

definition noEntryPoints :: "Configuration \<Rightarrow> bool" where
  "noEntryPoints conf = (EntryPoints conf = None \<or> len (EntryPoints conf) = 0)"

text \<open>
  Lines 87 to 97, for the Configuration behind pointer \<open>p\<close>. \<open>defaultEntryPoints\<close> is a
  slice as well; its elements are read when the diagnostic is formatted and when
  \<open>append\<close> is called.
\<close>

definition defaultEntryPointsOf ::
  "('tc, 'e) deps \<Rightarrow> slice option \<Rightarrow> nat \<Rightarrow> 'tc state \<Rightarrow> 'tc state" where
  "defaultEntryPointsOf d defaultEntryPoints p s =
     (let conf = heap s p in
      if noEntryPoints conf
      then (let r = append_slice (newCapacity d) (arrays s) (EntryPoints conf)
                      (elems (arrays s) defaultEntryPoints)
            in s\<lparr>heap := (heap s)(p := conf\<lparr>EntryPoints := fst r\<rparr>),
                 arrays := snd r,
                 logged := (if debugLevel d
                            then logged s @ [debugMessage (certName (isPath d) (Certificate conf))
                                               (elems (arrays s) defaultEntryPoints)]
                            else logged s)\<rparr>)
      else s)"

text \<open>Lines 98 to 102: the inner loop, which returns at the first error.\<close>

fun appendEach ::
  "('tc store \<Rightarrow> string \<Rightarrow> 'e option \<times> 'tc store) \<Rightarrow> 'tc store \<Rightarrow> string list
     \<Rightarrow> 'e option \<times> 'tc store" where
  "appendEach app certs [] = (None, certs)"
| "appendEach app certs (ep # eps) =
     (case app certs ep of
        (Some err, certs') \<Rightarrow> (Some err, certs')
      | (None, certs') \<Rightarrow> appendEach app certs' eps)"

text \<open>Lines 86 to 104: the loop over \<open>configurations\<close> and the final \<open>return nil\<close>.\<close>

fun sortLoop ::
  "('tc, 'e) deps \<Rightarrow> slice option \<Rightarrow> nat list \<Rightarrow> 'tc state \<Rightarrow> 'e option \<times> 'tc state" where
  "sortLoop d defaultEntryPoints [] s = (None, s)"
| "sortLoop d defaultEntryPoints (p # ps) s =
     (let s1 = defaultEntryPointsOf d defaultEntryPoints p s;
          conf = heap s1 p
      in case appendEach (appendCertificates d (Certificate conf)) (store s1)
                (elems (arrays s1) (EntryPoints conf)) of
           (Some err, certs) \<Rightarrow> (Some err, s1\<lparr>store := certs\<rparr>)
         | (None, certs) \<Rightarrow> sortLoop d defaultEntryPoints ps (s1\<lparr>store := certs\<rparr>))"

text \<open>
  What a call leaves behind. The function returns only an \<open>error\<close> (\<open>returned\<close>). A Go
  map argument is a reference passed by value: when the caller passes a map, the
  insertions are made in the caller's map; when the caller passes \<open>nil\<close>, line 84 binds
  the parameter to a new map and the caller's variable stays \<open>nil\<close>. \<open>callerStore\<close> is
  the caller's map after the call (\<open>None\<close> for \<open>nil\<close>), \<open>localStore\<close> the map the
  parameter refers to when the function returns, \<open>memory\<close> the Configurations behind
  the pointers, \<open>finalArrays\<close> the memory of backing arrays, \<open>logs\<close> the debug lines.
  The call is given the Configurations behind the pointers (\<open>mem\<close>) and the memory of
  arrays (\<open>arrs\<close>) as they are on entry.
\<close>

record ('tc, 'e) outcome =
  returned :: "'e option"
  callerStore :: "'tc store option"
  localStore :: "'tc store"
  memory :: "nat \<Rightarrow> Configuration"
  finalArrays :: "string list list"
  logs :: "string list"

definition SortTLSPerEntryPoints ::
  "('tc, 'e) deps \<Rightarrow> (nat \<Rightarrow> Configuration) \<Rightarrow> string list list \<Rightarrow> nat list
     \<Rightarrow> 'tc store option \<Rightarrow> slice option \<Rightarrow> ('tc, 'e) outcome" where
  "SortTLSPerEntryPoints d mem arrs configurations epConfiguration defaultEntryPoints =
     (let certs = (case epConfiguration of None \<Rightarrow> Map.empty | Some m \<Rightarrow> m);
          r = sortLoop d defaultEntryPoints configurations
                \<lparr>heap = mem, arrays = arrs, store = certs, logged = []\<rparr>
      in \<lparr>returned = fst r,
          callerStore = (case epConfiguration of None \<Rightarrow> None | Some m \<Rightarrow> Some (store (snd r))),
          localStore = store (snd r),
          memory = heap (snd r),
          finalArrays = arrays (snd r),
          logs = logged (snd r)\<rparr>)"

section \<open>Notions used to state the properties\<close>

text \<open>The entry-point list of the Configuration behind \<open>p\<close> when the call has returned.\<close>

definition entryPointsAfter :: "('tc, 'e) outcome \<Rightarrow> nat \<Rightarrow> string list" where
  "entryPointsAfter out p = elems (finalArrays out) (EntryPoints (memory out p))"

text \<open>
  The entry points an assignment asks for, read on entry: the default list when the
  test of line 87 holds, its own list otherwise.
\<close>

definition targets :: "string list list \<Rightarrow> slice option \<Rightarrow> Configuration \<Rightarrow> string list" where
  "targets arrs defaultEntryPoints conf =
     (if noEntryPoints conf then elems arrs defaultEntryPoints
      else elems arrs (EntryPoints conf))"

text \<open>A slice whose backing array exists in the memory of arrays and holds its window.\<close>

definition allocated :: "string list list \<Rightarrow> slice option \<Rightarrow> bool" where
  "allocated arrs s =
     (case s of
        None \<Rightarrow> True
      | Some h \<Rightarrow> base h < length arrs \<and> off h + slen h \<le> length (arrs ! base h))"

text \<open>
  The inputs on which the \<open>append\<close> of line 96 never writes into an existing array: the
  slices of the Configurations \<open>P\<close> and the default list are allocated, and no empty
  entry-point list has room for the default entry points in its capacity (the default
  list is empty, or longer than that capacity).
\<close>

definition appendsAllocate ::
  "(nat \<Rightarrow> Configuration) \<Rightarrow> string list list \<Rightarrow> nat set \<Rightarrow> slice option \<Rightarrow> bool" where
  "appendsAllocate mem arrs P defaultEntryPoints =
     (allocated arrs defaultEntryPoints
      \<and> (\<forall>p\<in>P. allocated arrs (EntryPoints (mem p))
                \<and> (noEntryPoints (mem p) \<longrightarrow>
                     len defaultEntryPoints = 0
                     \<or> cap (EntryPoints (mem p)) < len defaultEntryPoints)))"

text \<open>
  The entry points the loop of lines 98 to 102 ranges over for the Configuration behind
  \<open>p\<close>, from the state \<open>s\<close> in which the outer loop reaches it: its list when lines 87
  to 97 have run.
\<close>

definition visited :: "('tc, 'e) deps \<Rightarrow> slice option \<Rightarrow> nat \<Rightarrow> 'tc state \<Rightarrow> string list" where
  "visited d D p s =
     elems (arrays (defaultEntryPointsOf d D p s))
       (EntryPoints (heap (defaultEntryPointsOf d D p s) p))"

section \<open>Worked examples\<close>

text \<open>
  A parser for the examples: it knows two certificate files, \<open>certA.pem\<close> for the server
  name \<open>a.example\<close> and \<open>certB.pem\<close> for \<open>a.example\<close> and \<open>b.example\<close>, accepts any inline
  PEM text, and fails on everything else. A parsed certificate is a string naming it.
\<close>

definition exampleParse :: "Certificate \<Rightarrow> error + string list \<times> string" where
  "exampleParse c =
     (if CertFile c = FileOrContent ''certA.pem'' then Inr ([''a.example''], ''A'')
      else if CertFile c = FileOrContent ''certB.pem''
      then Inr ([''a.example'', ''b.example''], ''B'')
      else if strings_HasPrefix (FileOrContent_String (CertFile c)) certificateHeader
      then Inr ([''inline.example''], ''inline'')
      else Inl (Errorf ''tls: failed to find any PEM data in certificate input''))"

definition exampleDeps :: "(string, error) deps" where
  "exampleDeps =
     \<lparr>isPath = FileOrContent_IsPath,
      appendCertificates = Certificate_AppendCertificates exampleParse,
      debugLevel = True,
      newCapacity = id\<rparr>"

definition exampleConf :: "slice option \<Rightarrow> string \<Rightarrow> Configuration" where
  "exampleConf eps file =
     \<lparr>EntryPoints = eps,
      Certificate = \<lparr>CertFile = FileOrContent file, KeyFile = FileOrContent ''key.pem''\<rparr>\<rparr>"

text \<open>The slice \<open>a[0:n]\<close> of capacity \<open>c\<close> on the array at address \<open>a\<close>.\<close>

definition sliceOf :: "nat \<Rightarrow> nat \<Rightarrow> nat \<Rightarrow> slice option" where
  "sliceOf a n c = Some \<lparr>base = a, off = 0, slen = n, scap = c\<rparr>"

text \<open>The memory in which pointer \<open>i\<close> refers to the \<open>i\<close>-th Configuration of a list.\<close>

definition heapOf :: "Configuration list \<Rightarrow> nat \<Rightarrow> Configuration" where
  "heapOf confs p = (if p < length confs then confs ! p else exampleConf None [])"

text \<open>An inline certificate: the PEM header and 76 bytes of base64 text.\<close>

definition examplePEM :: string where
  "examplePEM = certificateHeader
     @ ''MIIDdzCCAl+gAwIBAgIEAgAAuTANBgkqhkiG9w0BAQUFADBaMQswCQYDVQQGEwJJRTESMBAGA1UE''"

section \<open>Properties of the string functions\<close>

lemma strings_Split_not_Nil: "strings_Split s sep \<noteq> []"
  by (induction s) (auto split: list.splits)

lemma strings_Split_length_pos: "0 < length (strings_Split s sep)"
  using strings_Split_not_Nil [of s sep] by simp

lemma strings_Split_no_sep: "p \<in> set (strings_Split s sep) \<Longrightarrow> sep \<notin> set p"
proof (induction s arbitrary: p)
  case Nil
  then show ?case by simp
next
  case (Cons x xs)
  show ?case
  proof (cases "x = sep")
    case True
    with Cons show ?thesis by auto
  next
    case False
    obtain q qs where q: "strings_Split xs sep = q # qs"
      using strings_Split_not_Nil [of xs sep] by (cases "strings_Split xs sep") auto
    with False Cons.prems have "p = x # q \<or> p \<in> set qs" by auto
    then show ?thesis
    proof
      assume "p = x # q"
      moreover have "sep \<notin> set q" using Cons.IH [of q] q by simp
      ultimately show ?thesis using False by auto
    next
      assume "p \<in> set qs"
      then show ?thesis using Cons.IH [of p] q by simp
    qed
  qed
qed

lemma strings_Join_Cons:
  "ps \<noteq> [] \<Longrightarrow> strings_Join (p # ps) sep = p @ sep @ strings_Join ps sep"
  by (cases ps) auto

lemma strings_Join_Split: "strings_Join (strings_Split s sep) [sep] = s"
proof (induction s)
  case Nil
  then show ?case by simp
next
  case (Cons x xs)
  obtain q qs where q: "strings_Split xs sep = q # qs"
    using strings_Split_not_Nil [of xs sep] by (cases "strings_Split xs sep") auto
  show ?case
  proof (cases "x = sep")
    case True
    then show ?thesis
      using Cons.IH strings_Split_not_Nil [of xs sep] by (simp add: strings_Join_Cons)
  next
    case False
    have "strings_Join ((x # q) # qs) [sep] = x # strings_Join (q # qs) [sep]"
      by (cases qs) auto
    with False q Cons.IH show ?thesis by simp
  qed
qed

section \<open>Properties of FilesOrContents\<close>

lemma fillStrings_map:
  "length acc = key + length vs \<Longrightarrow>
   fillStrings key vs acc = take key acc @ map FileOrContent_String vs"
proof (induction vs arbitrary: key acc)
  case Nil
  then show ?case by simp
next
  case (Cons v vs)
  have "fillStrings (Suc key) vs (acc[key := FileOrContent_String v])
        = take (Suc key) (acc[key := FileOrContent_String v]) @ map FileOrContent_String vs"
    using Cons.prems by (intro Cons.IH) simp
  moreover have "take (Suc key) (acc[key := FileOrContent_String v])
        = take key acc @ [FileOrContent_String v]"
    using Cons.prems by (simp add: take_Suc_conv_app_nth)
  ultimately show ?case by simp
qed

lemma FilesOrContents_String_map:
  "FilesOrContents_String r = strings_Join (map FileOrContent_String r) '',''"
  by (simp add: FilesOrContents_String_def fillStrings_map)

lemma appendAll_append: "appendAll r ps = r @ map FileOrContent ps"
  by (induction ps arbitrary: r) auto

lemma FilesOrContents_Set_eq:
  "FilesOrContents_Set r v = (None, r @ map FileOrContent (strings_Split v (CHR '','')))"
  using strings_Split_not_Nil [of v "CHR '',''"]
  by (simp add: FilesOrContents_Set_def appendAll_append)

lemma FileOrContent_String_inverse: "map FileOrContent_String (map FileOrContent ps) = ps"
  by (induction ps) auto

section \<open>Properties of the loops of SortTLSPerEntryPoints\<close>

lemma appendEach_append:
  "appendEach app certs (xs @ ys) =
     (case appendEach app certs xs of
        (Some err, certs') \<Rightarrow> (Some err, certs')
      | (None, certs') \<Rightarrow> appendEach app certs' ys)"
  by (induction xs arbitrary: certs) (auto split: prod.splits option.splits)

lemma sortLoop_append:
  "sortLoop d D (xs @ ys) s =
     (case sortLoop d D xs s of
        (Some err, s') \<Rightarrow> (Some err, s')
      | (None, s') \<Rightarrow> sortLoop d D ys s')"
  by (induction xs arbitrary: s) (auto simp: Let_def split: prod.splits option.splits)

lemma store_defaultEntryPointsOf: "store (defaultEntryPointsOf d D p s) = store s"
  by (simp add: defaultEntryPointsOf_def Let_def)

lemma Certificate_defaultEntryPointsOf:
  "Certificate (heap (defaultEntryPointsOf d D p s) q) = Certificate (heap s q)"
  by (simp add: defaultEntryPointsOf_def Let_def)

lemma heap_defaultEntryPointsOf_other:
  "q \<noteq> p \<Longrightarrow> heap (defaultEntryPointsOf d D p s) q = heap s q"
  by (simp add: defaultEntryPointsOf_def Let_def)

lemma defaultEntryPointsOf_nonempty:
  "\<not> noEntryPoints (heap s p) \<Longrightarrow> defaultEntryPointsOf d D p s = s"
  by (simp add: defaultEntryPointsOf_def Let_def)

lemma heap_defaultEntryPointsOf_nonempty:
  "\<not> noEntryPoints (heap s q) \<Longrightarrow> heap (defaultEntryPointsOf d D p s) q = heap s q"
  by (cases "q = p") (simp_all add: defaultEntryPointsOf_nonempty heap_defaultEntryPointsOf_other)

lemma logged_defaultEntryPointsOf:
  "logged (defaultEntryPointsOf d D p s) =
     (if noEntryPoints (heap s p) \<and> debugLevel d
      then logged s @ [debugMessage (certName (isPath d) (Certificate (heap s p)))
                         (elems (arrays s) D)]
      else logged s)"
  by (simp add: defaultEntryPointsOf_def Let_def)

lemma sortLoop_Cons:
  "sortLoop d D (p # ps) s =
     (case appendEach (appendCertificates d (Certificate (heap s p))) (store s) (visited d D p s) of
        (Some err, certs) \<Rightarrow> (Some err, (defaultEntryPointsOf d D p s)\<lparr>store := certs\<rparr>)
      | (None, certs) \<Rightarrow> sortLoop d D ps ((defaultEntryPointsOf d D p s)\<lparr>store := certs\<rparr>))"
  by (simp add: Let_def visited_def store_defaultEntryPointsOf Certificate_defaultEntryPointsOf)

text \<open>An induction rule that follows sortLoop_Cons.\<close>

lemma sortLoop_induct [consumes 1, case_names Nil Failed Next]:
  assumes run: "sortLoop d D ps s = (r, s')"
    and nil: "\<And>s. Q [] s None s"
    and failed: "\<And>p ps s err certs.
        appendEach (appendCertificates d (Certificate (heap s p))) (store s) (visited d D p s)
          = (Some err, certs) \<Longrightarrow>
        Q (p # ps) s (Some err) ((defaultEntryPointsOf d D p s)\<lparr>store := certs\<rparr>)"
    and step: "\<And>p ps s certs r s'.
        appendEach (appendCertificates d (Certificate (heap s p))) (store s) (visited d D p s)
          = (None, certs) \<Longrightarrow>
        sortLoop d D ps ((defaultEntryPointsOf d D p s)\<lparr>store := certs\<rparr>) = (r, s') \<Longrightarrow>
        Q ps ((defaultEntryPointsOf d D p s)\<lparr>store := certs\<rparr>) r s' \<Longrightarrow>
        Q (p # ps) s r s'"
  shows "Q ps s r s'"
  using run
proof (induction ps arbitrary: s)
  case Nil
  then show ?case using nil by simp
next
  case (Cons p ps)
  obtain e certs where inner:
    "appendEach (appendCertificates d (Certificate (heap s p))) (store s) (visited d D p s)
       = (e, certs)"
    by (cases "appendEach (appendCertificates d (Certificate (heap s p))) (store s)
       (visited d D p s)") auto
  show ?case
  proof (cases e)
    case None
    with inner Cons.prems
    have rest: "sortLoop d D ps ((defaultEntryPointsOf d D p s)\<lparr>store := certs\<rparr>) = (r, s')"
      by (simp add: sortLoop_Cons del: sortLoop.simps(2))
    from step [OF _ rest Cons.IH [OF rest]] inner None show ?thesis by simp
  next
    case (Some err)
    with inner Cons.prems
    have "r = Some err" and "s' = (defaultEntryPointsOf d D p s)\<lparr>store := certs\<rparr>"
      by (simp_all add: sortLoop_Cons del: sortLoop.simps(2))
    with failed [where p = p and s = s and ps = ps and err = err and certs = certs] inner Some
    show ?thesis by simp
  qed
qed

lemma sortLoop_Certificate:
  "sortLoop d D ps s = (r, s') \<Longrightarrow> Certificate (heap s' q) = Certificate (heap s q)"
  by (induction rule: sortLoop_induct) (simp_all add: Certificate_defaultEntryPointsOf)

lemma sortLoop_heap_other:
  "sortLoop d D ps s = (r, s') \<Longrightarrow> q \<notin> set ps \<Longrightarrow> heap s' q = heap s q"
  by (induction rule: sortLoop_induct) (simp_all add: heap_defaultEntryPointsOf_other)

lemma sortLoop_heap_nonempty:
  "sortLoop d D ps s = (r, s') \<Longrightarrow> \<not> noEntryPoints (heap s q) \<Longrightarrow> heap s' q = heap s q"
  by (induction rule: sortLoop_induct) (simp_all add: heap_defaultEntryPointsOf_nonempty)

lemma sortLoop_failed_prefix:
  assumes "fst (sortLoop d D xs s) \<noteq> None"
  shows "sortLoop d D (xs @ ys) s = sortLoop d D xs s"
  using assms by (cases "sortLoop d D xs s") (auto simp: sortLoop_append)

lemma sortLoop_prefix_ok:
  "fst (sortLoop d D (xs @ ys) s) = None \<Longrightarrow> fst (sortLoop d D xs s) = None"
  by (cases "sortLoop d D xs s") (auto simp: sortLoop_append split: option.splits)

section \<open>Inputs on which the append of line 96 allocates\<close>

text \<open>
  On these inputs a slice that is allocated keeps its elements through the whole run,
  an empty list that the loop reaches receives a new array holding the default entry
  points, and the invariant \<open>appendsAllocate\<close> is kept from one assignment to the next.
\<close>

lemma elems_extend:
  "allocated arrs sl \<Longrightarrow> elems (arrs @ ext) sl = elems arrs sl"
  by (auto simp: allocated_def elems_def nth_append split: option.splits)

lemma allocated_extend: "allocated arrs sl \<Longrightarrow> allocated (arrs @ ext) sl"
  by (auto simp: allocated_def nth_append split: option.splits)

lemma length_elems: "allocated arrs sl \<Longrightarrow> length (elems arrs sl) = len sl"
  by (auto simp: allocated_def elems_def len_def split: option.splits)

lemma elems_empty: "len sl = 0 \<Longrightarrow> elems arrs sl = []"
  by (auto simp: elems_def len_def split: option.splits)

lemma noEntryPoints_len: "noEntryPoints conf \<longleftrightarrow> len (EntryPoints conf) = 0"
  by (auto simp: noEntryPoints_def len_def)

lemma append_slice_nothing:
  "len sl = 0 \<Longrightarrow> append_slice grow arrs sl [] = (sl, arrs)"
  by (auto simp: append_slice_def len_def cap_def split: option.splits)

lemma append_slice_grow:
  "len sl = 0 \<Longrightarrow> cap sl < length xs \<Longrightarrow>
   append_slice grow arrs sl xs =
     (Some \<lparr>base = length arrs, off = 0, slen = length xs,
            scap = max (length xs) (grow (length xs))\<rparr>,
      arrs @ [xs @ replicate (max (length xs) (grow (length xs)) - length xs) []])"
  by (simp add: append_slice_def Let_def elems_empty)

text \<open>What lines 87 to 97 do when the append of line 96 allocates.\<close>

lemma defaultEntryPointsOf_cases:
  assumes inv: "appendsAllocate (heap s) (arrays s) P D" and p: "p \<in> P"
  shows "(\<not> noEntryPoints (heap s p) \<and> defaultEntryPointsOf d D p s = s)
       \<or> (noEntryPoints (heap s p) \<and> len D = 0
            \<and> heap (defaultEntryPointsOf d D p s) = heap s
            \<and> arrays (defaultEntryPointsOf d D p s) = arrays s)
       \<or> (noEntryPoints (heap s p) \<and> 0 < len D
            \<and> heap (defaultEntryPointsOf d D p s)
                  = (heap s)(p := (heap s p)\<lparr>EntryPoints :=
                       Some \<lparr>base = length (arrays s), off = 0, slen = len D,
                             scap = max (len D) (newCapacity d (len D))\<rparr>\<rparr>)
            \<and> arrays (defaultEntryPointsOf d D p s)
                  = arrays s @ [elems (arrays s) D
                       @ replicate (max (len D) (newCapacity d (len D)) - len D) []])"
proof (cases "noEntryPoints (heap s p)")
  case False
  then show ?thesis by (simp add: defaultEntryPointsOf_nonempty)
next
  case True
  then have l0: "len (EntryPoints (heap s p)) = 0" by (simp add: noEntryPoints_len)
  have allocD: "allocated (arrays s) D" using inv by (simp add: appendsAllocate_def)
  have lenD: "length (elems (arrays s) D) = len D" using allocD by (rule length_elems)
  show ?thesis
  proof (cases "len D = 0")
    case z: True
    then have "elems (arrays s) D = []" by (rule elems_empty)
    with True z l0 show ?thesis
      by (simp add: defaultEntryPointsOf_def Let_def append_slice_nothing)
  next
    case nz: False
    with inv p True have "cap (EntryPoints (heap s p)) < len D"
      by (auto simp: appendsAllocate_def)
    then have "cap (EntryPoints (heap s p)) < length (elems (arrays s) D)"
      using lenD by simp
    from append_slice_grow [OF l0 this, of "newCapacity d" "arrays s"] True nz lenD
    show ?thesis
      by (simp add: defaultEntryPointsOf_def Let_def)
  qed
qed

lemma allocated_fresh:
  "allocated (arrs @ [xs @ pad]) (Some \<lparr>base = length arrs, off = 0, slen = length xs, scap = c\<rparr>)"
  by (simp add: allocated_def)

lemma elems_fresh:
  "elems (arrs @ [xs @ pad]) (Some \<lparr>base = length arrs, off = 0, slen = length xs, scap = c\<rparr>) = xs"
  by (simp add: elems_def)

lemma defaultEntryPointsOf_inv:
  assumes inv: "appendsAllocate (heap s) (arrays s) P D" and p: "p \<in> P"
  shows "appendsAllocate (heap (defaultEntryPointsOf d D p s))
           (arrays (defaultEntryPointsOf d D p s)) P D"
    and "\<And>sl. allocated (arrays s) sl \<Longrightarrow>
           allocated (arrays (defaultEntryPointsOf d D p s)) sl
           \<and> elems (arrays (defaultEntryPointsOf d D p s)) sl = elems (arrays s) sl"
    and "visited d D p s = targets (arrays s) D (heap s p)"
    and "\<And>q. q \<in> P \<Longrightarrow>
           targets (arrays (defaultEntryPointsOf d D p s)) D (heap (defaultEntryPointsOf d D p s) q)
             = targets (arrays s) D (heap s q)"
proof -
  let ?s1 = "defaultEntryPointsOf d D p s"
  have allocD: "allocated (arrays s) D" using inv by (simp add: appendsAllocate_def)
  have lenD: "length (elems (arrays s) D) = len D" using allocD by (rule length_elems)
  have allocP: "allocated (arrays s) (EntryPoints (heap s q))" if "q \<in> P" for q
    using inv that by (simp add: appendsAllocate_def)
  define c where "c = max (len D) (newCapacity d (len D))"
  define pad :: "string list" where "pad = replicate (c - len D) []"
  have "(\<not> noEntryPoints (heap s p) \<and> ?s1 = s)
      \<or> (noEntryPoints (heap s p) \<and> len D = 0 \<and> heap ?s1 = heap s \<and> arrays ?s1 = arrays s)
      \<or> (noEntryPoints (heap s p) \<and> 0 < len D
           \<and> heap ?s1 = (heap s)(p := (heap s p)\<lparr>EntryPoints :=
                       Some \<lparr>base = length (arrays s), off = 0, slen = len D, scap = c\<rparr>\<rparr>)
           \<and> arrays ?s1 = arrays s @ [elems (arrays s) D @ pad])"
    using defaultEntryPointsOf_cases [OF inv p, of d] unfolding c_def pad_def .
  then have all: "appendsAllocate (heap ?s1) (arrays ?s1) P D
    \<and> (\<forall>sl. allocated (arrays s) sl \<longrightarrow>
           allocated (arrays ?s1) sl \<and> elems (arrays ?s1) sl = elems (arrays s) sl)
    \<and> visited d D p s = targets (arrays s) D (heap s p)
    \<and> (\<forall>q\<in>P. targets (arrays ?s1) D (heap ?s1 q) = targets (arrays s) D (heap s q))"
  proof (elim disjE conjE)
    assume same: "\<not> noEntryPoints (heap s p)" "?s1 = s"
    then show ?thesis using inv by (simp add: visited_def targets_def)
  next
    assume noop: "noEntryPoints (heap s p)" "len D = 0" "heap ?s1 = heap s"
      "arrays ?s1 = arrays s"
    then have e: "elems (arrays s) (EntryPoints (heap s p)) = []" "elems (arrays s) D = []"
      by (simp_all add: elems_empty noEntryPoints_len)
    show ?thesis
      unfolding visited_def noop(3) noop(4)
      using inv e noop(1) by (simp add: targets_def)
  next
    assume grown: "noEntryPoints (heap s p)" "0 < len D"
        "heap ?s1 = (heap s)(p := (heap s p)\<lparr>EntryPoints :=
                       Some \<lparr>base = length (arrays s), off = 0, slen = len D, scap = c\<rparr>\<rparr>)"
        "arrays ?s1 = arrays s @ [elems (arrays s) D @ pad]"
    let ?new = "Some \<lparr>base = length (arrays s), off = 0, slen = len D, scap = c\<rparr>"
    have new_alloc: "allocated (arrays ?s1) ?new"
      using allocated_fresh [of "arrays s" "elems (arrays s) D" pad c] grown(4) lenD by simp
    have new_elems: "elems (arrays ?s1) ?new = elems (arrays s) D"
      using elems_fresh [of "arrays s" "elems (arrays s) D" pad c] grown(4) lenD by simp
    have new_nonempty: "\<not> noEntryPoints ((heap s p)\<lparr>EntryPoints := ?new\<rparr>)"
      using grown(2) by (simp add: noEntryPoints_len len_def)
    have keep: "allocated (arrays ?s1) sl \<and> elems (arrays ?s1) sl = elems (arrays s) sl"
      if "allocated (arrays s) sl" for sl
      using that grown(4) by (simp add: allocated_extend elems_extend)
    have a: "appendsAllocate (heap ?s1) (arrays ?s1) P D"
      unfolding appendsAllocate_def
    proof (intro conjI ballI)
      show "allocated (arrays ?s1) D" using keep [OF allocD] by simp
    next
      fix q assume q: "q \<in> P"
      show "allocated (arrays ?s1) (EntryPoints (heap ?s1 q))"
        using new_alloc keep [OF allocP [OF q]] grown(3) by simp
      show "noEntryPoints (heap ?s1 q) \<longrightarrow>
              len D = 0 \<or> cap (EntryPoints (heap ?s1 q)) < len D"
        using inv q new_nonempty grown(3) by (auto simp: appendsAllocate_def)
    qed
    have v: "visited d D p s = targets (arrays s) D (heap s p)"
      using new_elems grown(1,3) by (simp add: visited_def targets_def)
    have t: "targets (arrays ?s1) D (heap ?s1 q) = targets (arrays s) D (heap s q)"
      if q: "q \<in> P" for q
    proof (cases "q = p")
      case True
      with new_elems new_nonempty grown(1,3) show ?thesis by (simp add: targets_def)
    next
      case False
      with keep [OF allocD] keep [OF allocP [OF q]] grown(3) show ?thesis
        by (simp add: targets_def)
    qed
    from a keep v t show ?thesis by blast
  qed
  from all show "appendsAllocate (heap ?s1) (arrays ?s1) P D" by blast
  from all show "\<And>sl. allocated (arrays s) sl \<Longrightarrow>
           allocated (arrays ?s1) sl \<and> elems (arrays ?s1) sl = elems (arrays s) sl" by blast
  from all show "visited d D p s = targets (arrays s) D (heap s p)" by blast
  from all show "\<And>q. q \<in> P \<Longrightarrow>
           targets (arrays ?s1) D (heap ?s1 q) = targets (arrays s) D (heap s q)" by blast
qed

lemma sortLoop_inv:
  assumes run: "sortLoop d D ps s = (r, s')"
    and inv: "appendsAllocate (heap s) (arrays s) P D"
    and sub: "set ps \<subseteq> P"
  shows "appendsAllocate (heap s') (arrays s') P D
       \<and> (\<forall>sl. allocated (arrays s) sl \<longrightarrow>
             allocated (arrays s') sl \<and> elems (arrays s') sl = elems (arrays s) sl)
       \<and> (\<forall>q\<in>P. targets (arrays s') D (heap s' q) = targets (arrays s) D (heap s q))"
  using run inv sub
proof (induction rule: sortLoop_induct)
  case (Nil s)
  then show ?case by simp
next
  case (Failed p ps s err certs)
  then have p: "p \<in> P" by simp
  from defaultEntryPointsOf_inv(1,2,4) [OF Failed.prems(1) p, where d = d]
  show ?case by simp
next
  case (Next p ps s certs r s')
  then have p: "p \<in> P" and ps: "set ps \<subseteq> P" by simp_all
  let ?s1 = "defaultEntryPointsOf d D p s"
  note step = defaultEntryPointsOf_inv(1,2,4) [OF Next.prems(1) p, where d = d]
  have inv1: "appendsAllocate (heap (?s1\<lparr>store := certs\<rparr>)) (arrays (?s1\<lparr>store := certs\<rparr>)) P D"
    using step(1) by simp
  from Next.IH [OF inv1 ps]
  have a: "appendsAllocate (heap s') (arrays s') P D"
    and b: "\<And>sl. allocated (arrays ?s1) sl \<Longrightarrow>
             allocated (arrays s') sl \<and> elems (arrays s') sl = elems (arrays ?s1) sl"
    and c: "\<And>q. q \<in> P \<Longrightarrow> targets (arrays s') D (heap s' q) = targets (arrays ?s1) D (heap ?s1 q)"
    by simp_all
  have b': "allocated (arrays s') sl \<and> elems (arrays s') sl = elems (arrays s) sl"
    if "allocated (arrays s) sl" for sl
    using step(2) [OF that] b [of sl] by simp
  have c': "targets (arrays s') D (heap s' q) = targets (arrays s) D (heap s q)" if "q \<in> P" for q
    using c [OF that] step(3) [OF that] by simp
  from a b' c' show ?case by blast
qed

lemma sortLoop_settled:
  assumes run: "sortLoop d D ps s = (r, s')"
    and inv: "appendsAllocate (heap s) (arrays s) P D"
    and sub: "set ps \<subseteq> P"
    and q: "q \<in> P"
    and settled: "elems (arrays s) (EntryPoints (heap s q)) = targets (arrays s) D (heap s q)"
  shows "elems (arrays s') (EntryPoints (heap s' q)) = targets (arrays s) D (heap s q)"
proof (cases "noEntryPoints (heap s' q)")
  case False
  then have "elems (arrays s') (EntryPoints (heap s' q)) = targets (arrays s') D (heap s' q)"
    by (simp add: targets_def)
  with sortLoop_inv [OF run inv sub] q show ?thesis by simp
next
  case True
  then have e: "elems (arrays s') (EntryPoints (heap s' q)) = []"
    by (simp add: elems_empty noEntryPoints_len)
  have "noEntryPoints (heap s q)"
  proof (rule ccontr)
    assume n: "\<not> noEntryPoints (heap s q)"
    from sortLoop_heap_nonempty [OF run n] True n show False by simp
  qed
  then have "elems (arrays s) (EntryPoints (heap s q)) = []"
    by (simp add: elems_empty noEntryPoints_len)
  with settled e show ?thesis by simp
qed

lemma sortLoop_reached:
  assumes run: "sortLoop d D (pre @ p # post) s = (r, s')"
    and pre_ok: "fst (sortLoop d D pre s) = None"
    and inv: "appendsAllocate (heap s) (arrays s) P D"
    and sub: "set (pre @ p # post) \<subseteq> P"
  shows "elems (arrays s') (EntryPoints (heap s' p)) = targets (arrays s) D (heap s p)"
proof -
  have p: "p \<in> P" and subpre: "set pre \<subseteq> P" and subpost: "set post \<subseteq> P"
    using sub by simp_all
  obtain s1 where pre: "sortLoop d D pre s = (None, s1)"
    using pre_ok by (cases "sortLoop d D pre s") auto
  from sortLoop_inv [OF pre inv subpre] p
  have inv1: "appendsAllocate (heap s1) (arrays s1) P D"
    and t1: "targets (arrays s1) D (heap s1 p) = targets (arrays s) D (heap s p)"
    by simp_all
  let ?s2 = "defaultEntryPointsOf d D p s1"
  note step = defaultEntryPointsOf_inv [OF inv1 p, where d = d]
  have settled2: "elems (arrays ?s2) (EntryPoints (heap ?s2 p)) = targets (arrays ?s2) D (heap ?s2 p)"
    using step(3) step(4) [OF p] by (simp add: visited_def)
  have t2: "targets (arrays ?s2) D (heap ?s2 p) = targets (arrays s) D (heap s p)"
    using step(4) [OF p] t1 by simp
  from run pre have rest: "sortLoop d D (p # post) s1 = (r, s')"
    by (simp add: sortLoop_append del: sortLoop.simps(2))
  obtain e certs where inner:
    "appendEach (appendCertificates d (Certificate (heap s1 p))) (store s1) (visited d D p s1)
       = (e, certs)"
    by (cases "appendEach (appendCertificates d (Certificate (heap s1 p))) (store s1)
       (visited d D p s1)") auto
  show ?thesis
  proof (cases e)
    case None
    with rest inner have post: "sortLoop d D post (?s2\<lparr>store := certs\<rparr>) = (r, s')"
      by (simp add: sortLoop_Cons del: sortLoop.simps(2))
    have inv2: "appendsAllocate (heap (?s2\<lparr>store := certs\<rparr>)) (arrays (?s2\<lparr>store := certs\<rparr>)) P D"
      using step(1) by simp
    from sortLoop_settled [OF post inv2 subpost p] settled2 t2 show ?thesis by simp
  next
    case (Some err)
    with rest inner have "s' = ?s2\<lparr>store := certs\<rparr>"
      by (simp add: sortLoop_Cons del: sortLoop.simps(2))
    with settled2 t2 show ?thesis by simp
  qed
qed

section \<open>What a call leaves behind\<close>

lemma Sort_returned: "returned (SortTLSPerEntryPoints d mem arrs cs epc D) =
   fst (sortLoop d D cs \<lparr>heap = mem, arrays = arrs,
     store = (case epc of None \<Rightarrow> Map.empty | Some m \<Rightarrow> m), logged = []\<rparr>)"
  by (simp add: SortTLSPerEntryPoints_def Let_def)

lemma Sort_memory: "memory (SortTLSPerEntryPoints d mem arrs cs epc D) =
   heap (snd (sortLoop d D cs \<lparr>heap = mem, arrays = arrs,
     store = (case epc of None \<Rightarrow> Map.empty | Some m \<Rightarrow> m), logged = []\<rparr>))"
  by (simp add: SortTLSPerEntryPoints_def Let_def)

lemma Sort_finalArrays: "finalArrays (SortTLSPerEntryPoints d mem arrs cs epc D) =
   arrays (snd (sortLoop d D cs \<lparr>heap = mem, arrays = arrs,
     store = (case epc of None \<Rightarrow> Map.empty | Some m \<Rightarrow> m), logged = []\<rparr>))"
  by (simp add: SortTLSPerEntryPoints_def Let_def)


lemma Sort_logs: "logs (SortTLSPerEntryPoints d mem arrs cs epc D) =
   logged (snd (sortLoop d D cs \<lparr>heap = mem, arrays = arrs,
     store = (case epc of None \<Rightarrow> Map.empty | Some m \<Rightarrow> m), logged = []\<rparr>))"
  by (simp add: SortTLSPerEntryPoints_def Let_def)

lemma Sort_entryPointsAfter: "entryPointsAfter (SortTLSPerEntryPoints d mem arrs cs epc D) p =
   elems (arrays (snd (sortLoop d D cs \<lparr>heap = mem, arrays = arrs,
     store = (case epc of None \<Rightarrow> Map.empty | Some m \<Rightarrow> m), logged = []\<rparr>)))
    (EntryPoints (heap (snd (sortLoop d D cs \<lparr>heap = mem, arrays = arrs,
     store = (case epc of None \<Rightarrow> Map.empty | Some m \<Rightarrow> m), logged = []\<rparr>)) p))"
  by (simp add: entryPointsAfter_def Sort_memory Sort_finalArrays)


lemma Sort_prefix_ok:
  "returned (SortTLSPerEntryPoints d mem arrs (xs @ ys) epc D) = None \<Longrightarrow>
   returned (SortTLSPerEntryPoints d mem arrs xs epc D) = None"
  unfolding Sort_returned by (rule sortLoop_prefix_ok)

section \<open>Where a failing run stops\<close>



section \<open>The certificate name and the diagnostic\<close>

lemma certName_path: "is_path (CertFile c) \<Longrightarrow> certName is_path c = FileOrContent_String (CertFile c)"
  by (simp add: certName_def)

lemma HasPrefix_append: "strings_HasPrefix (pre @ body) pre"
  by (simp add: strings_HasPrefix_def)

lemma TrimPrefix_append: "strings_TrimPrefix (pre @ body) pre = body"
  by (simp add: strings_TrimPrefix_def HasPrefix_append)

lemma certName_inline:
  "\<not> is_path (CertFile c) \<Longrightarrow> FileOrContent_String (CertFile c) = certificateHeader @ body \<Longrightarrow>
   certName is_path c = (if 50 < length body then take 50 body else certificateHeader @ body)"
  by (simp add: certName_def HasPrefix_append TrimPrefix_append)

lemma sortLoop_logged_snoc:
  assumes "sortLoop d D pre s = (None, s1)"
  shows "logged (snd (sortLoop d D (pre @ [p]) s)) =
     (if noEntryPoints (heap s1 p) \<and> debugLevel d
      then logged s1 @ [debugMessage (certName (isPath d) (Certificate (heap s1 p)))
                          (elems (arrays s1) D)]
      else logged s1)"
  using assms
  by (auto simp: sortLoop_append sortLoop_Cons logged_defaultEntryPointsOf
      simp del: sortLoop.simps(2) split: prod.splits option.splits)

text \<open>The definitions unfolded to run the worked examples.\<close>

lemmas ex_simps = SortTLSPerEntryPoints_def exampleDeps_def exampleConf_def exampleParse_def
  Certificate_AppendCertificates_def defaultEntryPointsOf_def noEntryPoints_def len_def cap_def
  elems_def append_slice_def lookup_def Let_def heapOf_def sliceOf_def entryPointsAfter_def

section \<open>Claims about FilesOrContents\<close>

text \<open>
  C6. The claim: Set fails with a format error when the input yields zero comma-separated
  segments (the empty-string case), and succeeds for every other input. The source tests
  \<open>len(filesOrContents) == 0\<close>, but \<open>strings.Split\<close> of the empty string is the one-element
  slice holding the empty string, so on the empty string Set returns \<open>nil\<close> and appends
  one empty FileOrContent: the error branch is never taken.
\<close>

theorem FilesOrContents_Set_empty_string:
  "FilesOrContents_Set r [] = (None, r @ [FileOrContent []])"
  by (simp add: FilesOrContents_Set_def)

text \<open>
  C7. For every string \<open>s\<close>, Set \<open>s\<close> on an empty list succeeds and String() of the result
  is \<open>s\<close> again; in particular for \<open>"a.pem,b.pem"\<close>. No piece that Split produces contains
  a comma (\<open>strings_Split_no_sep\<close>), so the condition of the claim, that no resulting
  element contains a comma, holds for every \<open>s\<close>.
\<close>

theorem FilesOrContents_Set_String_roundtrip:
  "fst (FilesOrContents_Set [] s) = None
   \<and> FilesOrContents_String (snd (FilesOrContents_Set [] s)) = s
   \<and> FilesOrContents_String (snd (FilesOrContents_Set [] ''a.pem,b.pem'')) = ''a.pem,b.pem''"
proof -
  have rt: "FilesOrContents_String (snd (FilesOrContents_Set [] t)) = t" for t
    using strings_Join_Split [of t "CHR '',''"]
    by (simp only: FilesOrContents_Set_eq FilesOrContents_String_map snd_conv append_Nil
        FileOrContent_String_inverse)
  have "fst (FilesOrContents_Set [] s) = None"
    by (simp add: FilesOrContents_Set_eq)
  with rt [of s] rt [of "''a.pem,b.pem''"] show ?thesis by blast
qed

text \<open>
  C8. Set is additive. A successful call on the list \<open>r\<close> leaves \<open>r\<close> followed by the
  comma-separated pieces of the value, in order; the elements of \<open>r\<close> keep their
  positions; and a second successful call appends its pieces after those of the first.
\<close>

theorem FilesOrContents_Set_additive:
  assumes "FilesOrContents_Set r v = (None, r1)"
  shows "r1 = r @ map FileOrContent (strings_Split v (CHR '',''))
         \<and> take (length r) r1 = r
         \<and> (\<forall>w r2. FilesOrContents_Set r1 w = (None, r2) \<longrightarrow>
               r2 = r @ map FileOrContent (strings_Split v (CHR '',''))
                      @ map FileOrContent (strings_Split w (CHR '','')))"
  using assms by (auto simp add: FilesOrContents_Set_eq)

theorem FilesOrContents_Set_additive_witness:
  "FilesOrContents_Set [FileOrContent ''ca.pem''] ''a.pem,b.pem''
     = (None, [FileOrContent ''ca.pem'', FileOrContent ''a.pem'', FileOrContent ''b.pem''])
   \<and> FilesOrContents_Set
        [FileOrContent ''ca.pem'', FileOrContent ''a.pem'', FileOrContent ''b.pem''] ''c.pem''
     = (None, [FileOrContent ''ca.pem'', FileOrContent ''a.pem'', FileOrContent ''b.pem'',
               FileOrContent ''c.pem''])
   \<and> take (length [FileOrContent ''ca.pem''])
        [FileOrContent ''ca.pem'', FileOrContent ''a.pem'', FileOrContent ''b.pem'']
     = [FileOrContent ''ca.pem'']"
proof -
  have h1: "FilesOrContents_Set [FileOrContent ''ca.pem''] ''a.pem,b.pem''
     = (None, [FileOrContent ''ca.pem'', FileOrContent ''a.pem'', FileOrContent ''b.pem''])"
    by (simp add: FilesOrContents_Set_def)
  have h2: "FilesOrContents_Set
        [FileOrContent ''ca.pem'', FileOrContent ''a.pem'', FileOrContent ''b.pem''] ''c.pem''
     = (None, [FileOrContent ''ca.pem'', FileOrContent ''a.pem'', FileOrContent ''b.pem'',
               FileOrContent ''c.pem''])"
    by (simp add: FilesOrContents_Set_def)
  from FilesOrContents_Set_additive [OF h1] h1 h2 show ?thesis by simp
qed

section \<open>Claims about SortTLSPerEntryPoints\<close>

text \<open>
  C5. The claim: called with no store (a nil map), SortTLSPerEntryPoints creates a fresh
  store and on full success the populated store is there for the caller. In the source
  the fresh map of line 84 is bound to the parameter only, and the function returns
  nothing but the error. For the assignment of \<open>certA.pem\<close> to \<open>websecure\<close> and a nil
  store, the call returns \<open>nil\<close>, the local map holds the certificate under
  \<open>websecure\<close>, and the caller's map is still nil; the caller's map is nil after every
  call that was given nil.
\<close>

theorem SortTLSPerEntryPoints_nil_store:
  "returned (SortTLSPerEntryPoints exampleDeps
      (heapOf [exampleConf (sliceOf 0 1 1) ''certA.pem''])
      [[''websecure''], [''web'', ''websecure'']] [0] None (sliceOf 1 2 2)) = None
   \<and> lookup (localStore (SortTLSPerEntryPoints exampleDeps
      (heapOf [exampleConf (sliceOf 0 1 1) ''certA.pem''])
      [[''websecure''], [''web'', ''websecure'']] [0] None (sliceOf 1 2 2)))
       ''websecure'' ''a.example'' = Some ''A''
   \<and> callerStore (SortTLSPerEntryPoints exampleDeps
      (heapOf [exampleConf (sliceOf 0 1 1) ''certA.pem''])
      [[''websecure''], [''web'', ''websecure'']] [0] None (sliceOf 1 2 2)) = None
   \<and> callerStore (SortTLSPerEntryPoints d mem arrs configurations None defaultEntryPoints) = None"
  by (simp add: ex_simps)

text \<open>
  C9. When the loop reaches an assignment whose entry-point list is empty and the debug
  level is on, one diagnostic is emitted, naming the certificate by \<open>certName\<close> and
  listing the default entry points as the memory of arrays holds them at that moment
  (as they are on entry, when the append of line 96 has not written into an existing
  array). For a path, \<open>certName\<close> is the stored value unchanged. For inline PEM text
  (not a path, the header followed by \<open>body\<close>), it is the first 50 bytes of \<open>body\<close>
  when \<open>body\<close> is longer than 50 bytes, and the whole value, whose \<open>body\<close> has at most
  50 bytes, otherwise: never more than 50 bytes of what follows the header.
\<close>

theorem SortTLSPerEntryPoints_certName:
  fixes d :: "('tc, 'e) deps"
  assumes "returned (SortTLSPerEntryPoints d mem arrs pre epc D) = None"
    and "noEntryPoints (memory (SortTLSPerEntryPoints d mem arrs pre epc D) p)"
    and "debugLevel d"
  shows "logs (SortTLSPerEntryPoints d mem arrs (pre @ [p]) epc D)
           = logs (SortTLSPerEntryPoints d mem arrs pre epc D)
             @ [debugMessage (certName (isPath d) (Certificate (mem p)))
                  (elems (finalArrays (SortTLSPerEntryPoints d mem arrs pre epc D)) D)]
       \<and> (appendsAllocate mem arrs (set pre) D \<longrightarrow>
            elems (finalArrays (SortTLSPerEntryPoints d mem arrs pre epc D)) D = elems arrs D)
       \<and> (isPath d (CertFile (Certificate (mem p))) \<longrightarrow>
            certName (isPath d) (Certificate (mem p))
              = FileOrContent_String (CertFile (Certificate (mem p))))
       \<and> (\<forall>body. \<not> isPath d (CertFile (Certificate (mem p)))
              \<and> FileOrContent_String (CertFile (Certificate (mem p))) = certificateHeader @ body \<longrightarrow>
            certName (isPath d) (Certificate (mem p))
              = (if 50 < length body then take 50 body else certificateHeader @ body))"
proof -
  define s0 :: "'tc state" where
    "s0 = \<lparr>heap = mem, arrays = arrs,
           store = (case epc of None \<Rightarrow> Map.empty | Some m \<Rightarrow> m), logged = []\<rparr>"
  obtain s1 where s1: "sortLoop d D pre s0 = (None, s1)"
    using assms(1) by (cases "sortLoop d D pre s0") (auto simp: Sort_returned s0_def)
  have e: "noEntryPoints (heap s1 p)"
    using assms(2) s1 by (simp add: Sort_memory s0_def)
  have c: "Certificate (heap s1 p) = Certificate (mem p)"
    using sortLoop_Certificate [OF s1, of p] by (simp add: s0_def)
  have "logged (snd (sortLoop d D (pre @ [p]) s0))
          = logged s1 @ [debugMessage (certName (isPath d) (Certificate (mem p)))
                           (elems (arrays s1) D)]"
    using sortLoop_logged_snoc [OF s1, of p] e c assms(3) by simp
  then have l: "logs (SortTLSPerEntryPoints d mem arrs (pre @ [p]) epc D)
           = logs (SortTLSPerEntryPoints d mem arrs pre epc D)
             @ [debugMessage (certName (isPath d) (Certificate (mem p)))
                  (elems (finalArrays (SortTLSPerEntryPoints d mem arrs pre epc D)) D)]"
    using s1 by (simp add: Sort_logs Sort_finalArrays s0_def)
  have k: "appendsAllocate mem arrs (set pre) D \<longrightarrow>
            elems (finalArrays (SortTLSPerEntryPoints d mem arrs pre epc D)) D = elems arrs D"
  proof
    assume inv0: "appendsAllocate mem arrs (set pre) D"
    then have inv: "appendsAllocate (heap s0) (arrays s0) (set pre) D" by (simp add: s0_def)
    have "allocated (arrays s0) D" using inv by (simp add: appendsAllocate_def)
    with sortLoop_inv [OF s1 inv] have "elems (arrays s1) D = elems (arrays s0) D" by simp
    then show "elems (finalArrays (SortTLSPerEntryPoints d mem arrs pre epc D)) D = elems arrs D"
      using s1 by (simp add: Sort_finalArrays s0_def)
  qed
  from l k show ?thesis
    using certName_path [of "isPath d" "Certificate (mem p)"]
      certName_inline [of "isPath d" "Certificate (mem p)"] by blast
qed

theorem SortTLSPerEntryPoints_certName_witness:
  "returned (SortTLSPerEntryPoints exampleDeps
      (heapOf [exampleConf (sliceOf 0 1 1) ''certA.pem'', exampleConf None examplePEM])
      [[''web''], [''web'', ''websecure'']] [0] None (sliceOf 1 2 2)) = None
   \<and> noEntryPoints (memory (SortTLSPerEntryPoints exampleDeps
      (heapOf [exampleConf (sliceOf 0 1 1) ''certA.pem'', exampleConf None examplePEM])
      [[''web''], [''web'', ''websecure'']] [0] None (sliceOf 1 2 2)) 1)
   \<and> debugLevel exampleDeps
   \<and> \<not> isPath exampleDeps (CertFile (Certificate ((heapOf [exampleConf (sliceOf 0 1 1) ''certA.pem'', exampleConf None examplePEM]) 1)))
   \<and> appendsAllocate (heapOf [exampleConf (sliceOf 0 1 1) ''certA.pem'', exampleConf None examplePEM]) [[''web''], [''web'', ''websecure'']] (set [0]) (sliceOf 1 2 2)
   \<and> elems (finalArrays (SortTLSPerEntryPoints exampleDeps
      (heapOf [exampleConf (sliceOf 0 1 1) ''certA.pem'', exampleConf None examplePEM])
      [[''web''], [''web'', ''websecure'']] [0] None (sliceOf 1 2 2))) (sliceOf 1 2 2)
       = elems [[''web''], [''web'', ''websecure'']] (sliceOf 1 2 2)
   \<and> logs (SortTLSPerEntryPoints exampleDeps
      (heapOf [exampleConf (sliceOf 0 1 1) ''certA.pem'', exampleConf None examplePEM])
      [[''web''], [''web'', ''websecure'']] ([0] @ [1]) None (sliceOf 1 2 2))
     = [''No entryPoint is defined to add the certificate ''
        @ ''MIIDdzCCAl+gAwIBAgIEAgAAuTANBgkqhkiG9w0BAQUFADBaMQ''
        @ '', it will be added to the default entryPoints: web, websecure'']
   \<and> length ''MIIDdzCCAl+gAwIBAgIEAgAAuTANBgkqhkiG9w0BAQUFADBaMQ'' = 50"
proof -
  let ?h = "heapOf [exampleConf (sliceOf 0 1 1) ''certA.pem'', exampleConf None examplePEM]"
  let ?A = "[[''web''], [''web'', ''websecure'']]"
  let ?D = "sliceOf 1 2 2"
  let ?body = "''MIIDdzCCAl+gAwIBAgIEAgAAuTANBgkqhkiG9w0BAQUFADBaMQswCQYDVQQGEwJJRTESMBAGA1UE''"
  let ?pre = "SortTLSPerEntryPoints exampleDeps ?h ?A [0] None ?D"
  have pre: "returned ?pre = None"
    by (simp add: ex_simps)
  have e: "noEntryPoints (memory ?pre 1)"
    by (simp add: ex_simps)
  have dbg: "debugLevel exampleDeps" by (simp add: exampleDeps_def)
  have np: "\<not> isPath exampleDeps (CertFile (Certificate (?h 1)))"
    by (simp add: ex_simps examplePEM_def FileOrContent_IsPath_def HasPrefix_append)
  have str: "FileOrContent_String (CertFile (Certificate (?h 1))) = certificateHeader @ ?body"
    by (simp add: ex_simps examplePEM_def)
  have pl: "logs ?pre = []"
    by (simp add: ex_simps)
  have inv: "appendsAllocate ?h ?A (set [0]) ?D"
    by (simp add: appendsAllocate_def allocated_def ex_simps)
  have dl: "elems ?A ?D = [''web'', ''websecure'']" by (simp add: ex_simps)
  note T = SortTLSPerEntryPoints_certName [OF pre e dbg]
  from T have "appendsAllocate ?h ?A (set [0]) ?D \<longrightarrow> elems (finalArrays ?pre) ?D = elems ?A ?D"
    by (rule conjunct1 [OF conjunct2])
  with inv have same: "elems (finalArrays ?pre) ?D = elems ?A ?D" by (rule rev_mp)
  from T have "\<forall>body. \<not> isPath exampleDeps (CertFile (Certificate (?h 1)))
                 \<and> FileOrContent_String (CertFile (Certificate (?h 1))) = certificateHeader @ body
               \<longrightarrow> certName (isPath exampleDeps) (Certificate (?h 1))
                     = (if 50 < length body then take 50 body else certificateHeader @ body)"
    by (rule conjunct2 [OF conjunct2 [OF conjunct2]])
  with np str have "certName (isPath exampleDeps) (Certificate (?h 1))
      = (if 50 < length ?body then take 50 ?body else certificateHeader @ ?body)"
    by blast
  then have cn: "certName (isPath exampleDeps) (Certificate (?h 1))
      = ''MIIDdzCCAl+gAwIBAgIEAgAAuTANBgkqhkiG9w0BAQUFADBaMQ''"
    by simp
  from T have "logs (SortTLSPerEntryPoints exampleDeps ?h ?A ([0] @ [1]) None ?D)
      = logs ?pre
        @ [debugMessage (certName (isPath exampleDeps) (Certificate (?h 1)))
             (elems (finalArrays ?pre) ?D)]"
    by (rule conjunct1)
  then have lg: "logs (SortTLSPerEntryPoints exampleDeps ?h ?A ([0] @ [1]) None ?D)
     = [''No entryPoint is defined to add the certificate ''
        @ ''MIIDdzCCAl+gAwIBAgIEAgAAuTANBgkqhkiG9w0BAQUFADBaMQ''
        @ '', it will be added to the default entryPoints: web, websecure'']"
    unfolding cn pl same dl by (simp add: debugMessage_def)
  have "length ''MIIDdzCCAl+gAwIBAgIEAgAAuTANBgkqhkiG9w0BAQUFADBaMQ'' = 50" by simp
  with pre e dbg np inv same lg show ?thesis by (intro conjI)
qed

text \<open>
  C10. The claim: for every assignment whose entry-point list is empty or nil on entry,
  after resolution its list equals the default list; assignments with a non-empty list
  are left unchanged. The loop returns at the first failing AppendCertificates call, so
  an assignment behind the failing one is never reached: with a first assignment whose
  certificate does not parse, the second one keeps its nil list.
\<close>

theorem SortTLSPerEntryPoints_unreached_counterexample:
  "noEntryPoints ((heapOf [exampleConf (sliceOf 0 1 1) ''bad.pem'', exampleConf None ''certB.pem'']) 1)
   \<and> elems [[''a''], [''web'']] (sliceOf 1 1 1) = [''web'']
   \<and> entryPointsAfter (SortTLSPerEntryPoints exampleDeps
      (heapOf [exampleConf (sliceOf 0 1 1) ''bad.pem'', exampleConf None ''certB.pem''])
      [[''a''], [''web'']] [0, 1] None (sliceOf 1 1 1)) 1 \<noteq> [''web'']"
  by (simp add: ex_simps strings_HasPrefix_def certificateHeader_def)

text \<open>
  C10, as amended. Take an input on which the append of line 96 never writes into an
  existing array: no empty entry-point list has room for the default entry points in
  its capacity. For every assignment that the loop reaches (no AppendCertificates call
  failed for an assignment before it; on success, every assignment) and whose list is
  empty or nil on entry, the list after resolution holds exactly the default entry
  points. A Configuration with a non-empty list is left unchanged, in every run. When a
  call fails for an assignment, the Configurations that are neither it nor before it are
  left unchanged. Nothing is said here of the inputs on which line 96 writes into an
  array that entry-point lists share; C4 shows one.
\<close>

theorem SortTLSPerEntryPoints_defaults_reached:
  fixes d :: "('tc, 'e) deps"
  assumes "appendsAllocate mem arrs (set configurations) D"
    and "configurations = pre @ p # post"
    and "returned (SortTLSPerEntryPoints d mem arrs pre epc D) = None"
  shows "(noEntryPoints (mem p) \<longrightarrow>
            entryPointsAfter (SortTLSPerEntryPoints d mem arrs configurations epc D) p
              = elems arrs D)
       \<and> (\<forall>q\<in>set configurations. \<not> noEntryPoints (mem q) \<longrightarrow>
            memory (SortTLSPerEntryPoints d mem arrs configurations epc D) q = mem q
            \<and> entryPointsAfter (SortTLSPerEntryPoints d mem arrs configurations epc D) q
                = elems arrs (EntryPoints (mem q)))
       \<and> (returned (SortTLSPerEntryPoints d mem arrs (pre @ [p]) epc D) \<noteq> None \<longrightarrow>
            (\<forall>q\<in>set configurations. q \<notin> set pre \<and> q \<noteq> p \<longrightarrow>
               memory (SortTLSPerEntryPoints d mem arrs configurations epc D) q = mem q
               \<and> entryPointsAfter (SortTLSPerEntryPoints d mem arrs configurations epc D) q
                   = elems arrs (EntryPoints (mem q))))"
proof -
  define s0 :: "'tc state" where
    "s0 = \<lparr>heap = mem, arrays = arrs,
           store = (case epc of None \<Rightarrow> Map.empty | Some m \<Rightarrow> m), logged = []\<rparr>"
  let ?out = "SortTLSPerEntryPoints d mem arrs configurations epc D"
  obtain r s' where run: "sortLoop d D (pre @ p # post) s0 = (r, s')"
    by (cases "sortLoop d D (pre @ p # post) s0") auto
  have inv: "appendsAllocate (heap s0) (arrays s0) (set (pre @ p # post)) D"
    using assms(1,2) by (simp add: s0_def)
  have pre_ok: "fst (sortLoop d D pre s0) = None"
    using assms(3) by (simp add: Sort_returned s0_def)
  have mem_out: "memory ?out = heap s'"
    using run by (simp add: Sort_memory assms(2) s0_def)
  have epa: "entryPointsAfter ?out q = elems (arrays s') (EntryPoints (heap s' q))" for q
    using run by (simp add: Sort_entryPointsAfter assms(2) s0_def)
  have alloc: "allocated arrs (EntryPoints (mem q))" if "q \<in> set (pre @ p # post)" for q
    using assms(1,2) that by (auto simp add: appendsAllocate_def)
  have keep: "elems (arrays s') sl = elems arrs sl" if "allocated arrs sl" for sl
    using sortLoop_inv [OF run inv] that by (simp add: s0_def)
  have "elems (arrays s') (EntryPoints (heap s' p)) = targets (arrays s0) D (heap s0 p)"
    using run pre_ok inv by (rule sortLoop_reached) simp
  then have a: "noEntryPoints (mem p) \<longrightarrow> entryPointsAfter ?out p = elems arrs D"
    by (simp add: epa targets_def s0_def)
  have same: "memory ?out q = mem q \<and> entryPointsAfter ?out q = elems arrs (EntryPoints (mem q))"
    if h: "heap s' q = mem q" and q: "q \<in> set (pre @ p # post)" for q
    using keep [OF alloc [OF q]] h by (simp add: mem_out epa)
  have b: "memory ?out q = mem q \<and> entryPointsAfter ?out q = elems arrs (EntryPoints (mem q))"
    if q: "q \<in> set configurations" and n: "\<not> noEntryPoints (mem q)" for q
  proof -
    have "heap s' q = mem q"
      using sortLoop_heap_nonempty [OF run, of q] n by (simp add: s0_def)
    with q show ?thesis using same assms(2) by simp
  qed
  have c: "memory ?out q = mem q \<and> entryPointsAfter ?out q = elems arrs (EntryPoints (mem q))"
    if f: "returned (SortTLSPerEntryPoints d mem arrs (pre @ [p]) epc D) \<noteq> None"
      and q: "q \<in> set configurations" and nq: "q \<notin> set pre \<and> q \<noteq> p" for q
  proof -
    have "fst (sortLoop d D (pre @ [p]) s0) \<noteq> None"
      using f by (simp add: Sort_returned s0_def)
    from sortLoop_failed_prefix [OF this, of post] run
    have "sortLoop d D (pre @ [p]) s0 = (r, s')" by simp
    from sortLoop_heap_other [OF this, of q] nq have "heap s' q = mem q" by (simp add: s0_def)
    with q show ?thesis using same assms(2) by simp
  qed
  from a b c show ?thesis by blast
qed

theorem SortTLSPerEntryPoints_defaults_reached_witness:
  "appendsAllocate (heapOf [exampleConf (sliceOf 0 1 1) ''certA.pem'', exampleConf None ''bad.pem'',
               exampleConf None ''certB.pem'']) [[''a''], [''web'']] (set [0, 1, 2]) (sliceOf 1 1 1)
   \<and> returned (SortTLSPerEntryPoints exampleDeps
      (heapOf [exampleConf (sliceOf 0 1 1) ''certA.pem'', exampleConf None ''bad.pem'',
               exampleConf None ''certB.pem''])
      [[''a''], [''web'']] [0] None (sliceOf 1 1 1)) = None
   \<and> noEntryPoints ((heapOf [exampleConf (sliceOf 0 1 1) ''certA.pem'', exampleConf None ''bad.pem'',
               exampleConf None ''certB.pem'']) 1)
   \<and> entryPointsAfter (SortTLSPerEntryPoints exampleDeps
      (heapOf [exampleConf (sliceOf 0 1 1) ''certA.pem'', exampleConf None ''bad.pem'',
               exampleConf None ''certB.pem''])
      [[''a''], [''web'']] [0, 1, 2] None (sliceOf 1 1 1)) 1
       = elems [[''a''], [''web'']] (sliceOf 1 1 1)
   \<and> \<not> noEntryPoints ((heapOf [exampleConf (sliceOf 0 1 1) ''certA.pem'', exampleConf None ''bad.pem'',
               exampleConf None ''certB.pem'']) 0)
   \<and> memory (SortTLSPerEntryPoints exampleDeps
      (heapOf [exampleConf (sliceOf 0 1 1) ''certA.pem'', exampleConf None ''bad.pem'',
               exampleConf None ''certB.pem''])
      [[''a''], [''web'']] [0, 1, 2] None (sliceOf 1 1 1)) 0
       = (heapOf [exampleConf (sliceOf 0 1 1) ''certA.pem'', exampleConf None ''bad.pem'',
               exampleConf None ''certB.pem'']) 0
   \<and> entryPointsAfter (SortTLSPerEntryPoints exampleDeps
      (heapOf [exampleConf (sliceOf 0 1 1) ''certA.pem'', exampleConf None ''bad.pem'',
               exampleConf None ''certB.pem''])
      [[''a''], [''web'']] [0, 1, 2] None (sliceOf 1 1 1)) 0
       = elems [[''a''], [''web'']] (EntryPoints ((heapOf [exampleConf (sliceOf 0 1 1) ''certA.pem'', exampleConf None ''bad.pem'',
               exampleConf None ''certB.pem'']) 0))
   \<and> returned (SortTLSPerEntryPoints exampleDeps
      (heapOf [exampleConf (sliceOf 0 1 1) ''certA.pem'', exampleConf None ''bad.pem'',
               exampleConf None ''certB.pem''])
      [[''a''], [''web'']] ([0] @ [1]) None (sliceOf 1 1 1)) \<noteq> None
   \<and> memory (SortTLSPerEntryPoints exampleDeps
      (heapOf [exampleConf (sliceOf 0 1 1) ''certA.pem'', exampleConf None ''bad.pem'',
               exampleConf None ''certB.pem''])
      [[''a''], [''web'']] [0, 1, 2] None (sliceOf 1 1 1)) 2
       = (heapOf [exampleConf (sliceOf 0 1 1) ''certA.pem'', exampleConf None ''bad.pem'',
               exampleConf None ''certB.pem'']) 2
   \<and> entryPointsAfter (SortTLSPerEntryPoints exampleDeps
      (heapOf [exampleConf (sliceOf 0 1 1) ''certA.pem'', exampleConf None ''bad.pem'',
               exampleConf None ''certB.pem''])
      [[''a''], [''web'']] [0, 1, 2] None (sliceOf 1 1 1)) 2
       = elems [[''a''], [''web'']] (EntryPoints ((heapOf [exampleConf (sliceOf 0 1 1) ''certA.pem'', exampleConf None ''bad.pem'',
               exampleConf None ''certB.pem'']) 2))"
proof -
  let ?h = "heapOf [exampleConf (sliceOf 0 1 1) ''certA.pem'', exampleConf None ''bad.pem'',
               exampleConf None ''certB.pem'']"
  let ?A = "[[''a''], [''web'']]"
  let ?D = "sliceOf 1 1 1"
  let ?out = "SortTLSPerEntryPoints exampleDeps ?h ?A [0, 1, 2] None ?D"
  have inv: "appendsAllocate ?h ?A (set [0, 1, 2]) ?D"
    by (simp add: appendsAllocate_def allocated_def ex_simps)
  have split: "[0, 1, 2] = [0] @ (1::nat) # [2]" by simp
  have pre: "returned (SortTLSPerEntryPoints exampleDeps ?h ?A [0] None ?D) = None"
    by (simp add: ex_simps)
  have fails: "returned (SortTLSPerEntryPoints exampleDeps ?h ?A ([0] @ [1]) None ?D) \<noteq> None"
    by (simp add: ex_simps strings_HasPrefix_def certificateHeader_def)
  have e1: "noEntryPoints (?h 1)" and e0: "\<not> noEntryPoints (?h 0)"
    by (simp_all add: ex_simps)
  note T = SortTLSPerEntryPoints_defaults_reached [OF inv split pre]
  from T have "noEntryPoints (?h 1) \<longrightarrow> entryPointsAfter ?out 1 = elems ?A ?D"
    by (rule conjunct1)
  with e1 have r1: "entryPointsAfter ?out 1 = elems ?A ?D" by (rule rev_mp)
  from T have "\<forall>q\<in>set [0, 1, 2]. \<not> noEntryPoints (?h q) \<longrightarrow>
      memory ?out q = ?h q \<and> entryPointsAfter ?out q = elems ?A (EntryPoints (?h q))"
    by (rule conjunct1 [OF conjunct2])
  then have "\<not> noEntryPoints (?h 0) \<longrightarrow>
      memory ?out 0 = ?h 0 \<and> entryPointsAfter ?out 0 = elems ?A (EntryPoints (?h 0))"
    by simp
  with e0 have r2: "memory ?out 0 = ?h 0 \<and> entryPointsAfter ?out 0 = elems ?A (EntryPoints (?h 0))"
    by (rule rev_mp)
  from T have "returned (SortTLSPerEntryPoints exampleDeps ?h ?A ([0] @ [1]) None ?D) \<noteq> None
      \<longrightarrow> (\<forall>q\<in>set [0, 1, 2]. q \<notin> set [0] \<and> q \<noteq> 1 \<longrightarrow>
             memory ?out q = ?h q \<and> entryPointsAfter ?out q = elems ?A (EntryPoints (?h q)))"
    by (rule conjunct2 [OF conjunct2])
  with fails have "\<forall>q\<in>set [0, 1, 2]. q \<notin> set [0] \<and> q \<noteq> 1 \<longrightarrow>
             memory ?out q = ?h q \<and> entryPointsAfter ?out q = elems ?A (EntryPoints (?h q))"
    by (rule rev_mp)
  then have r3: "memory ?out 2 = ?h 2 \<and> entryPointsAfter ?out 2 = elems ?A (EntryPoints (?h 2))"
    by simp
  note r2a = conjunct1 [OF r2] and r2b = conjunct2 [OF r2]
  note r3a = conjunct1 [OF r3] and r3b = conjunct2 [OF r3]
  from inv pre e1 r1 e0 r2a r2b fails r3a r3b show ?thesis by (intro conjI)
qed



section \<open>The append of line 96 on a shared backing array\<close>

text \<open>
  The three results of this section evaluate \<open>SortTLSPerEntryPoints\<close> on inputs in which
  an empty entry-point list with spare capacity shares its backing array with the list
  of a later assignment. What is stored under an entry point is what AppendCertificates
  does as the spec describes it; which entry points it is called with is decided by the
  loops of \<open>tls.go\<close>.
\<close>

text \<open>
  C4. The claim: the certificate of an assignment with a non-empty entry-point list is
  inserted only under the entry points the list names. Two assignments have their
  lists on one backing array of two elements: the first has the empty list
  \<open>backing[:0]\<close>, of capacity 2, and \<open>certA.pem\<close>; the second has \<open>backing[:2]\<close>, which
  is \<open>["x", "y"]\<close>, and \<open>certB.pem\<close>. The default entry points are
  \<open>["web", "websecure"]\<close>. For the first assignment the append of line 96 finds room in
  the capacity and writes the default entry points into the shared array. The inner
  loop then ranges over \<open>["web", "websecure"]\<close> for the second assignment: its
  certificate goes under \<open>web\<close>, where \<open>b.example\<close> had no entry before, and nothing is
  stored under \<open>x\<close> or \<open>y\<close>.
\<close>

theorem SortTLSPerEntryPoints_named_list_overwritten:
  "\<not> noEntryPoints ((heapOf [exampleConf (sliceOf 0 0 2) ''certA.pem'', exampleConf (sliceOf 0 2 2) ''certB.pem'']) 1)
   \<and> elems [[''x'', ''y''], [''web'', ''websecure'']] (EntryPoints ((heapOf [exampleConf (sliceOf 0 0 2) ''certA.pem'', exampleConf (sliceOf 0 2 2) ''certB.pem'']) 1)) = [''x'', ''y'']
   \<and> returned (SortTLSPerEntryPoints exampleDeps
      (heapOf [exampleConf (sliceOf 0 0 2) ''certA.pem'', exampleConf (sliceOf 0 2 2) ''certB.pem''])
      [[''x'', ''y''], [''web'', ''websecure'']] [0, 1] (Some Map.empty) (sliceOf 1 2 2)) = None
   \<and> entryPointsAfter (SortTLSPerEntryPoints exampleDeps
      (heapOf [exampleConf (sliceOf 0 0 2) ''certA.pem'', exampleConf (sliceOf 0 2 2) ''certB.pem''])
      [[''x'', ''y''], [''web'', ''websecure'']] [0, 1] (Some Map.empty) (sliceOf 1 2 2)) 1 = [''web'', ''websecure'']
   \<and> lookup (localStore (SortTLSPerEntryPoints exampleDeps
      (heapOf [exampleConf (sliceOf 0 0 2) ''certA.pem'', exampleConf (sliceOf 0 2 2) ''certB.pem''])
      [[''x'', ''y''], [''web'', ''websecure'']] [0] (Some Map.empty) (sliceOf 1 2 2))) ''web'' ''b.example'' = None
   \<and> lookup (localStore (SortTLSPerEntryPoints exampleDeps
      (heapOf [exampleConf (sliceOf 0 0 2) ''certA.pem'', exampleConf (sliceOf 0 2 2) ''certB.pem''])
      [[''x'', ''y''], [''web'', ''websecure'']] [0, 1] (Some Map.empty) (sliceOf 1 2 2))) ''web'' ''b.example'' = Some ''B''
   \<and> localStore (SortTLSPerEntryPoints exampleDeps
      (heapOf [exampleConf (sliceOf 0 0 2) ''certA.pem'', exampleConf (sliceOf 0 2 2) ''certB.pem''])
      [[''x'', ''y''], [''web'', ''websecure'']] [0, 1] (Some Map.empty) (sliceOf 1 2 2)) ''x'' = None
   \<and> localStore (SortTLSPerEntryPoints exampleDeps
      (heapOf [exampleConf (sliceOf 0 0 2) ''certA.pem'', exampleConf (sliceOf 0 2 2) ''certB.pem''])
      [[''x'', ''y''], [''web'', ''websecure'']] [0, 1] (Some Map.empty) (sliceOf 1 2 2)) ''y'' = None"
  by (simp add: ex_simps)

text \<open>
  C1. The claim: the store that results holds the certificate of an assignment with an
  empty entry-point list under every default entry point, and under no other. On the
  same input as for C4, the first assignment has an empty list and \<open>certA.pem\<close>, which
  answers for \<open>a.example\<close>, and the second names \<open>x\<close> and \<open>y\<close> only. When the first
  assignment has been processed the store holds its certificate under \<open>web\<close>. The
  second assignment, read as \<open>["web", "websecure"]\<close> through the shared array, then
  replaces it: after the run, which succeeds, \<open>a.example\<close> holds \<open>certB.pem\<close> under
  \<open>web\<close> and under \<open>websecure\<close>, although no assignment after the first named a
  default entry point.
\<close>

theorem SortTLSPerEntryPoints_defaulted_certificate_replaced:
  "noEntryPoints ((heapOf [exampleConf (sliceOf 0 0 2) ''certA.pem'', exampleConf (sliceOf 0 2 2) ''certB.pem'']) 0)
   \<and> exampleParse (Certificate ((heapOf [exampleConf (sliceOf 0 0 2) ''certA.pem'', exampleConf (sliceOf 0 2 2) ''certB.pem'']) 0)) = Inr ([''a.example''], ''A'')
   \<and> elems [[''x'', ''y''], [''web'', ''websecure'']] (sliceOf 1 2 2) = [''web'', ''websecure'']
   \<and> elems [[''x'', ''y''], [''web'', ''websecure'']] (EntryPoints ((heapOf [exampleConf (sliceOf 0 0 2) ''certA.pem'', exampleConf (sliceOf 0 2 2) ''certB.pem'']) 1)) = [''x'', ''y'']
   \<and> returned (SortTLSPerEntryPoints exampleDeps
      (heapOf [exampleConf (sliceOf 0 0 2) ''certA.pem'', exampleConf (sliceOf 0 2 2) ''certB.pem''])
      [[''x'', ''y''], [''web'', ''websecure'']] [0, 1] (Some Map.empty) (sliceOf 1 2 2)) = None
   \<and> lookup (localStore (SortTLSPerEntryPoints exampleDeps
      (heapOf [exampleConf (sliceOf 0 0 2) ''certA.pem'', exampleConf (sliceOf 0 2 2) ''certB.pem''])
      [[''x'', ''y''], [''web'', ''websecure'']] [0] (Some Map.empty) (sliceOf 1 2 2))) ''web'' ''a.example'' = Some ''A''
   \<and> lookup (localStore (SortTLSPerEntryPoints exampleDeps
      (heapOf [exampleConf (sliceOf 0 0 2) ''certA.pem'', exampleConf (sliceOf 0 2 2) ''certB.pem''])
      [[''x'', ''y''], [''web'', ''websecure'']] [0, 1] (Some Map.empty) (sliceOf 1 2 2))) ''web'' ''a.example'' = Some ''B''
   \<and> lookup (localStore (SortTLSPerEntryPoints exampleDeps
      (heapOf [exampleConf (sliceOf 0 0 2) ''certA.pem'', exampleConf (sliceOf 0 2 2) ''certB.pem''])
      [[''x'', ''y''], [''web'', ''websecure'']] [0, 1] (Some Map.empty) (sliceOf 1 2 2))) ''websecure'' ''a.example'' = Some ''B''"
  by (simp add: ex_simps)

text \<open>
  C3. The claim: of two assignments that target the same entry point and whose
  certificates share a server name, the store holds the certificate of the later one in
  the end. Three assignments: the first names \<open>x\<close>, on an array of its own, with
  \<open>certA.pem\<close>; the second has the empty list \<open>backing[:0]\<close>, of capacity 2; the third
  has \<open>backing[:2]\<close>, which is \<open>["x", "y"]\<close>, with \<open>certB.pem\<close>. The first and the third
  target \<open>x\<close> and both certificates answer for \<open>a.example\<close>. For the second assignment
  the append of line 96 writes the default entry points into the shared array, so the
  inner loop ranges over \<open>["web", "websecure"]\<close> for the third: after the run, which
  succeeds, \<open>a.example\<close> under \<open>x\<close> still holds the certificate of the first
  assignment.
\<close>

theorem SortTLSPerEntryPoints_later_assignment_lost:
  "elems [[''x'', ''y''], [''web'', ''websecure''], [''x'']] (EntryPoints ((heapOf [exampleConf (sliceOf 2 1 1) ''certA.pem'', exampleConf (sliceOf 0 0 2) ''certA.pem'',
               exampleConf (sliceOf 0 2 2) ''certB.pem'']) 0)) = [''x'']
   \<and> exampleParse (Certificate ((heapOf [exampleConf (sliceOf 2 1 1) ''certA.pem'', exampleConf (sliceOf 0 0 2) ''certA.pem'',
               exampleConf (sliceOf 0 2 2) ''certB.pem'']) 0)) = Inr ([''a.example''], ''A'')
   \<and> elems [[''x'', ''y''], [''web'', ''websecure''], [''x'']] (EntryPoints ((heapOf [exampleConf (sliceOf 2 1 1) ''certA.pem'', exampleConf (sliceOf 0 0 2) ''certA.pem'',
               exampleConf (sliceOf 0 2 2) ''certB.pem'']) 2)) = [''x'', ''y'']
   \<and> exampleParse (Certificate ((heapOf [exampleConf (sliceOf 2 1 1) ''certA.pem'', exampleConf (sliceOf 0 0 2) ''certA.pem'',
               exampleConf (sliceOf 0 2 2) ''certB.pem'']) 2)) = Inr ([''a.example'', ''b.example''], ''B'')
   \<and> returned (SortTLSPerEntryPoints exampleDeps
      (heapOf [exampleConf (sliceOf 2 1 1) ''certA.pem'', exampleConf (sliceOf 0 0 2) ''certA.pem'',
               exampleConf (sliceOf 0 2 2) ''certB.pem''])
      [[''x'', ''y''], [''web'', ''websecure''], [''x'']] [0, 1, 2] (Some Map.empty) (sliceOf 1 2 2)) = None
   \<and> entryPointsAfter (SortTLSPerEntryPoints exampleDeps
      (heapOf [exampleConf (sliceOf 2 1 1) ''certA.pem'', exampleConf (sliceOf 0 0 2) ''certA.pem'',
               exampleConf (sliceOf 0 2 2) ''certB.pem''])
      [[''x'', ''y''], [''web'', ''websecure''], [''x'']] [0, 1, 2] (Some Map.empty) (sliceOf 1 2 2)) 2 = [''web'', ''websecure'']
   \<and> lookup (localStore (SortTLSPerEntryPoints exampleDeps
      (heapOf [exampleConf (sliceOf 2 1 1) ''certA.pem'', exampleConf (sliceOf 0 0 2) ''certA.pem'',
               exampleConf (sliceOf 0 2 2) ''certB.pem''])
      [[''x'', ''y''], [''web'', ''websecure''], [''x'']] [0, 1, 2] (Some Map.empty) (sliceOf 1 2 2))) ''x'' ''a.example'' = Some ''A''"
  by (simp add: ex_simps)

end
